theory Spec2Isabelle
  imports Complex_Main "HOL-Library.Char_ord" "HOL-Library.List_Lexorder" "HOL-Library.Multiset"
begin

section \<open>The JavaScript runtime, as far as the loader and the router use it\<close>

text \<open>
  JavaScript strings are modelled as \<open>string\<close>; \<open>a < b\<close> on strings is the
  lexicographic order of the characters (\<open>Char_ord\<close>, \<open>List_Lexorder\<close>), as the
  relational comparison of two JavaScript strings is on their code units; the two agree
  on the ASCII strings that dates, slugs and fragments are. A thrown value is a
  \<open>js_error\<close>.
\<close>

datatype js_error = JsError string

text \<open>
  A property read from a parsed front-matter object: the key is missing
  (\<open>undefined\<close>), it is present without a value (\<open>null\<close>), or it has a value.
\<close>

datatype 'a js_value = Undefined | Null | Val 'a

text \<open>\<^verbatim>\<open>v || d\<close> for a string-valued property: the empty string is falsy.\<close>

fun or_string :: "string js_value \<Rightarrow> string \<Rightarrow> string" where
  "or_string (Val s) d = (if s = [] then d else s)"
| "or_string Undefined d = d"
| "or_string Null d = d"

text \<open>
  A value of any type, as a front-matter key can hold it: a string, a number, a boolean,
  or an object (a list, a mapping, a date), which is known by its reference only. A finite
  number is the rational it denotes.
\<close>

datatype js_number = FiniteNumber rat | InfinityNumber bool | NaN

datatype js_any = JString string | JNumber js_number | JBoolean bool | JObject nat

text \<open>Truthiness: the empty string, zero, \<open>NaN\<close> and \<open>false\<close> are falsy, every object is truthy.\<close>

fun number_truthy :: "js_number \<Rightarrow> bool" where
  "number_truthy (FiniteNumber q) = (q \<noteq> 0)"
| "number_truthy (InfinityNumber negative) = True"
| "number_truthy NaN = False"

fun js_truthy :: "js_any \<Rightarrow> bool" where
  "js_truthy (JString s) = (s \<noteq> [])"
| "js_truthy (JNumber n) = number_truthy n"
| "js_truthy (JBoolean b) = b"
| "js_truthy (JObject reference) = True"

text \<open>\<^verbatim>\<open>v || d\<close> for a property of any type: the first operand itself when it is truthy.\<close>

fun or_any :: "js_any js_value \<Rightarrow> js_any \<Rightarrow> js_any" where
  "or_any (Val v) d = (if js_truthy v then v else d)"
| "or_any Undefined d = d"
| "or_any Null d = d"

text \<open>\<^verbatim>\<open>v || []\<close> for an array-valued property: every array is truthy, also the empty one.\<close>

fun or_array :: "'a list js_value \<Rightarrow> 'a list \<Rightarrow> 'a list" where
  "or_array (Val xs) d = xs"
| "or_array Undefined d = d"
| "or_array Null d = d"

text \<open>\<^verbatim>\<open>s.split(c)\<close> with a one-character separator; the result is never empty.\<close>

fun split :: "char \<Rightarrow> string \<Rightarrow> string list" where
  "split c [] = [[]]"
| "split c (x # xs) =
     (if x = c then [] # split c xs
      else (case split c xs of
              [] \<Rightarrow> [[x]]
            | p # ps \<Rightarrow> (x # p) # ps))"

text \<open>\<^verbatim>\<open>xs[i]\<close>: \<open>None\<close> stands for \<open>undefined\<close>, the value of a read out of range.\<close>

definition array_get :: "'a list \<Rightarrow> int \<Rightarrow> 'a option" where
  "array_get xs i = (if 0 \<le> i \<and> i < int (length xs) then Some (xs ! nat i) else None)"

text \<open>Truthiness of a string that may be \<open>undefined\<close>: the empty string is falsy.\<close>

fun truthy :: "string option \<Rightarrow> bool" where
  "truthy None = False"
| "truthy (Some s) = (s \<noteq> [])"

text \<open>\<^verbatim>\<open>names.includes(v)\<close> for an array of strings; \<open>undefined\<close> is in none.\<close>

fun array_includes :: "string list \<Rightarrow> string option \<Rightarrow> bool" where
  "array_includes names None = False"
| "array_includes names (Some s) = (s \<in> set names)"

definition endsWith :: "string \<Rightarrow> string \<Rightarrow> bool" where
  "endsWith s suffix =
     (length suffix \<le> length s \<and> drop (length s - length suffix) s = suffix)"

text \<open>\<^verbatim>\<open>fileName.replace(/\.md$/, '')\<close>: the pattern matches only at the end of the name.\<close>

definition replace_md :: "string \<Rightarrow> string" where
  "replace_md fileName =
     (if endsWith fileName ''.md'' then take (length fileName - 3) fileName else fileName)"

text \<open>
  \<^verbatim>\<open>Array.prototype.sort(cmp)\<close> belongs to the engine, not to the repository. It is
  modelled as a stable insertion procedure driven by the sign of the comparator: the
  elements are taken from left to right and each one is placed in front of the first
  already placed element \<open>y\<close> with \<open>cmp x y < 0\<close>, behind all of them when there is
  none. For a consistent comparator this is the stable order the language prescribes; for
  the comparator of this program, which never answers \<open>0\<close>, it is what binary insertion
  computes on a prefix that is already in order. The properties below use only that the
  result is a permutation of the input in which no post is followed by a newer one.
\<close>

fun sort_insert :: "('a \<Rightarrow> 'a \<Rightarrow> int) \<Rightarrow> 'a \<Rightarrow> 'a list \<Rightarrow> 'a list" where
  "sort_insert cmp x [] = [x]"
| "sort_insert cmp x (y # ys) =
     (if cmp x y < 0 then x # y # ys else y # sort_insert cmp x ys)"

definition array_sort :: "('a \<Rightarrow> 'a \<Rightarrow> int) \<Rightarrow> 'a list \<Rightarrow> 'a list" where
  "array_sort cmp xs = foldl (\<lambda>acc x. sort_insert cmp x acc) [] xs"

text \<open>\<^verbatim>\<open>xs.findIndex(P)\<close>: the first index whose element satisfies \<open>P\<close>, or \<open>-1\<close>.\<close>

fun findIndex_from :: "int \<Rightarrow> ('a \<Rightarrow> bool) \<Rightarrow> 'a list \<Rightarrow> int" where
  "findIndex_from i P [] = - 1"
| "findIndex_from i P (x # xs) = (if P x then i else findIndex_from (i + 1) P xs)"

definition findIndex :: "('a \<Rightarrow> bool) \<Rightarrow> 'a list \<Rightarrow> int" where
  "findIndex P xs = findIndex_from 0 P xs"

text \<open>
  A \<open>map\<close> whose callback may throw: the first exception ends the traversal, as it
  leaves the enclosing \<open>try\<close> block.
\<close>

fun try_map :: "('a \<Rightarrow> js_error + 'b) \<Rightarrow> 'a list \<Rightarrow> js_error + 'b list" where
  "try_map f [] = Inr []"
| "try_map f (x # xs) =
     (case f x of
        Inl e \<Rightarrow> Inl e
      | Inr y \<Rightarrow> (case try_map f xs of Inl e \<Rightarrow> Inl e | Inr ys \<Rightarrow> Inr (y # ys)))"

section \<open>The content loader (lib/posts.ts)\<close>

text \<open>
  The interface \<open>Post\<close>. It declares \<open>category\<close> as one of three strings, but the
  loader fills the field through a cast that checks nothing, so the field holds whatever
  value the front-matter gives: it has the type of any value. The other fields have the
  types that the interface and the file format declare.
\<close>

record Post =
  slug :: string
  title :: string
  date :: string
  readTime :: string
  category :: js_any
  tags :: "string list"
  excerpt :: string
  content :: string
  html :: string

text \<open>
  A \<open>Date\<close> object is represented by the string its \<open>toISOString()\<close> returns;
  on an invalid date that method throws a \<open>RangeError\<close>.
\<close>

datatype js_date = ValidDate string | InvalidDate

datatype date_value = DateObject js_date | DateString string

text \<open>
  The keys of the front-matter object \<open>data\<close> that the loader reads. The category can
  have a value of any type; the other keys have the types the file format declares.
\<close>

record front_matter =
  data_slug :: "string js_value"
  data_title :: "string js_value"
  data_date :: "date_value js_value"
  data_readTime :: "string js_value"
  data_category :: "js_any js_value"
  data_tags :: "string list js_value"
  data_excerpt :: "string js_value"

text \<open>
  What the loader calls outside the repository: the working directory, \<open>path.join\<close>,
  the two synchronous file-system reads, the front-matter parser \<open>matter\<close> and the
  markdown renderer \<open>marked\<close>. Each call that can throw returns a sum.
\<close>

record env =
  process_cwd :: string
  path_join :: "string \<Rightarrow> string \<Rightarrow> string"
  readdirSync :: "string \<Rightarrow> js_error + string list"
  readFileSync :: "string \<Rightarrow> js_error + string"
  matter :: "string \<Rightarrow> js_error + (front_matter \<times> string)"
  marked :: "string \<Rightarrow> js_error + string"

definition postsDirectory :: "env \<Rightarrow> string" where
  "postsDirectory E = path_join E (process_cwd E) ''content/posts''"

text \<open>
  \<^verbatim>\<open>data.date instanceof Date ? data.date.toISOString().split('T')[0] : (data.date || '')\<close>
\<close>

fun post_date :: "date_value js_value \<Rightarrow> js_error + string" where
  "post_date (Val (DateObject (ValidDate stamp))) = Inr (hd (split CHR ''T'' stamp))"
| "post_date (Val (DateObject InvalidDate)) = Inl (JsError ''RangeError: Invalid time value'')"
| "post_date (Val (DateString s)) = Inr (if s = [] then [] else s)"
| "post_date Undefined = Inr []"
| "post_date Null = Inr []"

text \<open>The callback of \<open>map\<close> in \<open>getAllPosts\<close>: one file name to one Post record.\<close>

definition make_post :: "env \<Rightarrow> string \<Rightarrow> js_error + Post" where
  "make_post E fileName =
     (let fullPath = path_join E (postsDirectory E) fileName in
      case readFileSync E fullPath of
        Inl e \<Rightarrow> Inl e
      | Inr fileContents \<Rightarrow>
     (case matter E fileContents of
        Inl e \<Rightarrow> Inl e
      | Inr (data, body) \<Rightarrow>
     (case marked E body of
        Inl e \<Rightarrow> Inl e
      | Inr rendered \<Rightarrow>
     (case post_date (data_date data) of
        Inl e \<Rightarrow> Inl e
      | Inr d \<Rightarrow>
          Inr \<lparr> slug = or_string (data_slug data) (replace_md fileName),
                title = or_string (data_title data) [],
                date = d,
                readTime = or_string (data_readTime data) ''5 min'',
                category = or_any (data_category data) (JString ''personal''),
                tags = or_array (data_tags data) [],
                excerpt = or_string (data_excerpt data) [],
                content = body,
                html = rendered \<rparr>))))"

text \<open>The comparator of every sort in the program: \<^verbatim>\<open>(a, b) => (a.date < b.date ? 1 : -1)\<close>.\<close>

definition date_cmp :: "Post \<Rightarrow> Post \<Rightarrow> int" where
  "date_cmp a b = (if date a < date b then 1 else - 1)"

text \<open>
  \<open>getAllPosts\<close> returns the posts together with what it wrote to \<open>console.error\<close>:
  each entry is the message and the caught value.
\<close>

type_synonym console = "(string \<times> js_error) list"

definition md_files :: "string list \<Rightarrow> string list" where
  "md_files fileNames = filter (\<lambda>fileName. endsWith fileName ''.md'') fileNames"

definition getAllPosts :: "env \<Rightarrow> Post list \<times> console" where
  "getAllPosts E =
     (case readdirSync E (postsDirectory E) of
        Inl e \<Rightarrow> ([], [(''Error reading posts:'', e)])
      | Inr fileNames \<Rightarrow>
     (case try_map (make_post E) (md_files fileNames) of
        Inl e \<Rightarrow> ([], [(''Error reading posts:'', e)])
      | Inr posts \<Rightarrow> (array_sort date_cmp posts, [])))"

text \<open>
  \<open>getPostBySlug\<close>: \<open>getAllPosts\<close> catches its own exceptions, so the \<open>catch\<close>
  branch here is never taken; \<open>None\<close> is the \<open>null\<close> result.
\<close>

definition getPostBySlug :: "env \<Rightarrow> string \<Rightarrow> Post option \<times> console" where
  "getPostBySlug E s =
     (let (posts, out) = getAllPosts E in (find (\<lambda>post. slug post = s) posts, out))"

section \<open>The view-state router (app/HomeClient.tsx)\<close>

text \<open>
  \<^verbatim>\<open>type Route = 'home' | 'roadmap' | 'skills' | 'log' | { post: string } | 'manifesto'\<close>:
  at run time a route is either a string or an object with the one key \<open>post\<close>.
\<close>

datatype Route = RouteName string | RoutePost string

definition route_names :: "string list" where
  "route_names = [''home'', ''roadmap'', ''skills'', ''log'', ''manifesto'']"

text \<open>The initial value of the route state: \<^verbatim>\<open>useState<Route>('home')\<close>.\<close>

definition initial_route :: Route where
  "initial_route = RouteName ''home''"







text \<open>
  The window, as far as the router touches it: \<open>location_hash\<close> is what
  \<^verbatim>\<open>window.location.hash\<close> returns (empty when the fragment is empty, otherwise \<open>#\<close>
  and the fragment), and \<open>history\<close> holds the URLs pushed so far. The program never
  decodes what it reads from \<open>location_hash\<close>.
\<close>

record window =
  location_hash :: string
  history :: "string list"



text \<open>
  The effect that runs once on mount. It returns the route state after the effect; a
  branch without \<open>setRoute\<close> leaves the state as it is.
\<close>

definition hash_on_mount :: "window \<Rightarrow> Route \<Rightarrow> Route" where
  "hash_on_mount w route =
     (let hash = drop 1 (location_hash w) in
      if hash \<noteq> [] then
        (let parts = split CHR ''/'' hash in
         if array_get parts 0 = Some ''log'' \<and> truthy (array_get parts 1)
         then RoutePost (the (array_get parts 1))
         else if array_includes route_names (array_get parts 0)
         then RouteName (the (array_get parts 0))
         else route)
      else route)"

text \<open>The listener of the \<open>hashchange\<close> event.\<close>

definition handleHashChange :: "window \<Rightarrow> Route \<Rightarrow> Route" where
  "handleHashChange w route =
     (let hash = drop 1 (location_hash w) in
      if hash = [] then RouteName ''home''
      else
        (let parts = split CHR ''/'' hash in
         if array_get parts 0 = Some ''log'' \<and> truthy (array_get parts 1)
         then RoutePost (the (array_get parts 1))
         else if array_includes route_names (array_get parts 0)
         then RouteName (the (array_get parts 0))
         else route))"

text \<open>
  The three derived values. The category facet is the string state
  \<open>'all' | 'rust' | 'blockchain' | 'personal'\<close>.
\<close>

definition filteredPosts :: "Post list \<Rightarrow> string \<Rightarrow> Post list" where
  "filteredPosts posts facet =
     (let sorted = array_sort date_cmp posts in
      if facet = ''all'' then sorted
      else filter (\<lambda>p. category p = JString facet) sorted)"

fun currentPost :: "Route \<Rightarrow> Post list \<Rightarrow> Post option" where
  "currentPost (RoutePost s) posts = find (\<lambda>p. slug p = s) posts"
| "currentPost (RouteName name) posts = None"

record navigation =
  prev :: "Post option"
  "next" :: "Post option"

definition postNavigation :: "Route \<Rightarrow> Post list \<Rightarrow> navigation" where
  "postNavigation route posts =
     (case currentPost route posts of
        None \<Rightarrow> \<lparr> prev = None, next = None \<rparr>
      | Some current \<Rightarrow>
          (let sorted = array_sort date_cmp posts;
               currentIndex = findIndex (\<lambda>p. slug p = slug current) sorted
           in \<lparr> prev = (if currentIndex < int (length sorted) - 1
                         then array_get sorted (currentIndex + 1) else None),
                 next = (if currentIndex > 0
                         then array_get sorted (currentIndex - 1) else None) \<rparr>))"

text \<open>
  The post section of the page, \<^verbatim>\<open>{currentPost && (<Section title="Post" ...>)}\<close>:
  what it shows of the post, and the slugs its two navigation buttons open.
\<close>

record post_section =
  shown_title :: string
  shown_date :: string
  shown_readTime :: string
  shown_category :: js_any
  shown_tags :: "string list"
  shown_html :: string
  previous_button :: "string option"
  next_button :: "string option"

definition render_post_section :: "Route \<Rightarrow> Post list \<Rightarrow> post_section option" where
  "render_post_section route posts =
     (case currentPost route posts of
        None \<Rightarrow> None
      | Some p \<Rightarrow>
          Some \<lparr> shown_title = title p, shown_date = date p, shown_readTime = readTime p,
                 shown_category = category p, shown_tags = tags p, shown_html = html p,
                 previous_button = map_option slug (prev (postNavigation route posts)),
                 next_button = map_option slug (next (postNavigation route posts)) \<rparr>)"

section \<open>Named properties and example inputs\<close>

text \<open>A list of posts is in descending date order: no post is followed by a newer one.\<close>

definition date_descending :: "Post list \<Rightarrow> bool" where
  "date_descending ps = sorted_wrt (\<lambda>a b. date b \<le> date a) ps"

text \<open>The three values of the type of \<open>Post.category\<close>.\<close>

definition category_labels :: "string list" where
  "category_labels = [''rust'', ''blockchain'', ''personal'']"

text \<open>
  A front-matter category that the loader turns into one of the three labels: a missing,
  null or falsy one, or one that is a label already.
\<close>

fun category_declared :: "js_any js_value \<Rightarrow> bool" where
  "category_declared (Val v) = (\<not> js_truthy v \<or> v \<in> JString ` set category_labels)"
| "category_declared Undefined = True"
| "category_declared Null = True"

text \<open>
  The fragment grammar as the specification words it, for comparison with what the
  parser of \<open>HomeClient\<close> accepts: one of the five state names, or \<open>log/\<close> followed by
  a slug.
\<close>

definition spec_fragment_grammar :: "string \<Rightarrow> bool" where
  "spec_fragment_grammar frag =
     (frag \<in> set route_names \<or> (take 4 frag = ''log/'' \<and> drop 4 frag \<noteq> []))"

text \<open>
  A content directory with three posts and one file that is not markdown. The second
  post leaves out every optional key.
\<close>

definition first_data :: front_matter where
  "first_data =
     \<lparr> data_slug = Val ''day-17-rust-hash-function'',
       data_title = Val ''Day 17'',
       data_date = Val (DateObject (ValidDate ''2026-02-20T00:00:00.000Z'')),
       data_readTime = Val ''10 min'',
       data_category = Val (JString ''rust''),
       data_tags = Val [''rust'', ''hashing''],
       data_excerpt = Val ''Hashing'' \<rparr>"

definition second_data :: front_matter where
  "second_data =
     \<lparr> data_slug = Undefined,
       data_title = Val ''What is a node'',
       data_date = Val (DateString ''2026-02-10''),
       data_readTime = Undefined,
       data_category = Undefined,
       data_tags = Undefined,
       data_excerpt = Null \<rparr>"

definition third_data :: front_matter where
  "third_data =
     \<lparr> data_slug = Val ''day-1-rust-ownership-borrowing-move'',
       data_title = Val ''Day 1'',
       data_date = Val (DateObject (ValidDate ''2026-01-25T00:00:00.000Z'')),
       data_readTime = Val ''6 min'',
       data_category = Val (JString ''rust''),
       data_tags = Val [''rust''],
       data_excerpt = Val ''Ownership'' \<rparr>"

definition example_env :: env where
  "example_env =
     \<lparr> process_cwd = ''/site'',
       path_join = (\<lambda>a b. a @ ''/'' @ b),
       readdirSync = (\<lambda>d. if d = ''/site/content/posts''
                          then Inr [''node.md'', ''notes.txt'', ''day-1.md'', ''day-17.md'']
                          else Inl (JsError ''ENOENT'')),
       readFileSync = (\<lambda>p. if p = ''/site/content/posts/day-17.md'' then Inr ''A''
                           else if p = ''/site/content/posts/node.md'' then Inr ''B''
                           else if p = ''/site/content/posts/day-1.md'' then Inr ''C''
                           else Inl (JsError ''ENOENT'')),
       matter = (\<lambda>c. if c = ''A'' then Inr (first_data, ''hash'')
                     else if c = ''B'' then Inr (second_data, ''node'')
                     else if c = ''C'' then Inr (third_data, ''own'')
                     else Inl (JsError ''YAMLException'')),
       marked = (\<lambda>b. Inr (''<p>'' @ b @ ''</p>'')) \<rparr>"

definition first_post :: Post where
  "first_post =
     \<lparr> slug = ''day-17-rust-hash-function'', title = ''Day 17'', date = ''2026-02-20'',
       readTime = ''10 min'', category = JString ''rust'', tags = [''rust'', ''hashing''],
       excerpt = ''Hashing'', content = ''hash'', html = ''<p>hash</p>'' \<rparr>"

definition second_post :: Post where
  "second_post =
     \<lparr> slug = ''node'', title = ''What is a node'', date = ''2026-02-10'',
       readTime = ''5 min'', category = JString ''personal'', tags = [],
       excerpt = [], content = ''node'', html = ''<p>node</p>'' \<rparr>"

definition third_post :: Post where
  "third_post =
     \<lparr> slug = ''day-1-rust-ownership-borrowing-move'', title = ''Day 1'',
       date = ''2026-01-25'', readTime = ''6 min'', category = JString ''rust'', tags = [''rust''],
       excerpt = ''Ownership'', content = ''own'', html = ''<p>own</p>'' \<rparr>"

text \<open>The same directory when it cannot be read, and when the second file does not parse.\<close>

definition unreadable_env :: env where
  "unreadable_env = example_env \<lparr> readdirSync := (\<lambda>d. Inl (JsError ''EACCES'')) \<rparr>"

definition malformed_env :: env where
  "malformed_env =
     example_env \<lparr> matter := (\<lambda>c. if c = ''B'' then Inl (JsError ''YAMLException'')
                                   else matter example_env c) \<rparr>"

text \<open>A directory whose only post names a category outside the three labels.\<close>

definition cooking_env :: env where
  "cooking_env =
     example_env \<lparr> readdirSync := (\<lambda>d. Inr [''node.md'']),
                   matter := (\<lambda>c. Inr (second_data \<lparr> data_category := Val (JString ''cooking'') \<rparr>,
                                        ''node'')) \<rparr>"

text \<open>A directory whose only post has the number 7 as its category.\<close>

definition numeric_env :: env where
  "numeric_env =
     example_env \<lparr> readdirSync := (\<lambda>d. Inr [''node.md'']),
                   matter := (\<lambda>c. Inr (second_data
                                          \<lparr> data_category := Val (JNumber (FiniteNumber 7)) \<rparr>,
                                        ''node'')) \<rparr>"

text \<open>A window without a fragment and without history.\<close>

definition fresh_window :: window where
  "fresh_window = \<lparr> location_hash = [], history = [] \<rparr>"

section \<open>Facts about sorting and about the loader\<close>

lemma mset_sort_insert: "mset (sort_insert cmp x ys) = add_mset x (mset ys)"
  by (induction ys) auto

lemma mset_foldl_sort_insert:
  "mset (foldl (\<lambda>acc x. sort_insert cmp x acc) acc xs) = mset acc + mset xs"
  by (induction xs arbitrary: acc) (auto simp: mset_sort_insert)

lemma mset_array_sort: "mset (array_sort cmp xs) = mset xs"
  by (simp add: array_sort_def mset_foldl_sort_insert)

lemma set_array_sort: "set (array_sort cmp xs) = set xs"
  using mset_array_sort [of cmp xs] by (metis set_mset_mset)

lemma length_array_sort: "length (array_sort cmp xs) = length xs"
  using mset_array_sort [of cmp xs] by (metis size_mset)

lemma set_sort_insert: "set (sort_insert cmp x ys) = insert x (set ys)"
  by (induction ys) auto

lemma descending_sort_insert:
  "date_descending ys \<Longrightarrow> date_descending (sort_insert date_cmp x ys)"
  unfolding date_descending_def
proof (induction ys)
  case Nil
  then show ?case by simp
next
  case (Cons y ys)
  show ?case
  proof (cases "date x < date y")
    case True
    with Cons show ?thesis
      by (auto simp: date_cmp_def set_sort_insert)
  next
    case False
    then have "date y \<le> date x" by simp
    with Cons.prems False show ?thesis
      by (auto simp: date_cmp_def)
  qed
qed

lemma descending_foldl:
  "date_descending acc \<Longrightarrow>
   date_descending (foldl (\<lambda>acc x. sort_insert date_cmp x acc) acc xs)"
  by (induction xs arbitrary: acc) (auto simp: descending_sort_insert)

lemma descending_array_sort: "date_descending (array_sort date_cmp xs)"
  unfolding array_sort_def by (rule descending_foldl) (simp add: date_descending_def)

lemma descending_adjacent:
  "date_descending ps \<Longrightarrow> Suc i < length ps \<Longrightarrow> date (ps ! Suc i) \<le> date (ps ! i)"
  unfolding date_descending_def sorted_wrt_iff_nth_less by simp

lemma descending_getAllPosts: "date_descending (fst (getAllPosts E))"
  using descending_array_sort
  by (auto simp: getAllPosts_def date_descending_def split: sum.splits)

lemma example_posts:
  "getAllPosts example_env = ([first_post, second_post, third_post], [])"
  by (simp add: getAllPosts_def example_env_def postsDirectory_def md_files_def endsWith_def
      make_post_def first_data_def second_data_def third_data_def replace_md_def
      array_sort_def date_cmp_def first_post_def second_post_def third_post_def)

lemma try_map_throws:
  "x \<in> set xs \<Longrightarrow> f x = Inl e \<Longrightarrow> \<exists>e'. try_map f xs = Inl e'"
  by (induction xs) (auto split: sum.splits)

lemma try_map_results:
  "try_map f xs = Inr ys \<Longrightarrow> y \<in> set ys \<Longrightarrow> \<exists>x \<in> set xs. f x = Inr y"
  by (induction xs arbitrary: ys) (auto split: sum.splits)

section \<open>The claims about the loader\<close>

text \<open>
  C1. The list that \<open>getAllPosts\<close> returns is sorted non-increasing by \<open>date\<close>: in
  every adjacent pair the later post has a date that is not greater, under string
  comparison. This holds for every directory and every front-matter, also when a call
  throws and the result is empty.
\<close>

theorem getAllPosts_date_descending:
  "\<forall>i. Suc i < length (fst (getAllPosts E)) \<longrightarrow>
     date (fst (getAllPosts E) ! Suc i) \<le> date (fst (getAllPosts E) ! i)"
  using descending_getAllPosts [of E] by (simp add: descending_adjacent)

text \<open>C1 on the example directory: three posts come back, each pair in order.\<close>

theorem getAllPosts_date_descending_witness:
  "length (fst (getAllPosts example_env)) = 3
   \<and> date (fst (getAllPosts example_env) ! Suc 0) \<le> date (fst (getAllPosts example_env) ! 0)
   \<and> date (fst (getAllPosts example_env) ! Suc (Suc 0))
       \<le> date (fst (getAllPosts example_env) ! Suc 0)"
proof -
  have len: "length (fst (getAllPosts example_env)) = 3"
    by (simp add: example_posts)
  from getAllPosts_date_descending [of example_env]
  have "Suc 0 < length (fst (getAllPosts example_env)) \<longrightarrow>
        date (fst (getAllPosts example_env) ! Suc 0) \<le> date (fst (getAllPosts example_env) ! 0)"
    and "Suc (Suc 0) < length (fst (getAllPosts example_env)) \<longrightarrow>
        date (fst (getAllPosts example_env) ! Suc (Suc 0))
          \<le> date (fst (getAllPosts example_env) ! Suc 0)"
    by blast+
  with len show ?thesis by simp
qed

text \<open>
  C6. When the content directory cannot be read, \<open>getAllPosts\<close> returns the empty list
  and logs one line with the caught value; the result type has no error of its own, so
  nothing reaches the caller.
\<close>

theorem getAllPosts_unreadable_directory:
  "readdirSync E (postsDirectory E) = Inl e \<Longrightarrow>
   getAllPosts E = ([], [(''Error reading posts:'', e)])"
  by (simp add: getAllPosts_def)

text \<open>C6 on the example directory without read permission.\<close>

theorem getAllPosts_unreadable_directory_witness:
  "readdirSync unreadable_env (postsDirectory unreadable_env) = Inl (JsError ''EACCES'')
   \<and> getAllPosts unreadable_env = ([], [(''Error reading posts:'', JsError ''EACCES'')])"
proof -
  have h: "readdirSync unreadable_env (postsDirectory unreadable_env) = Inl (JsError ''EACCES'')"
    by (simp add: unreadable_env_def)
  from getAllPosts_unreadable_directory [OF h] h show ?thesis by simp
qed

text \<open>
  C10. There is no isolation of a failing file: when the directory lists a markdown
  file that cannot be read or whose front-matter does not parse, \<open>getAllPosts\<close> returns
  the empty list and logs one line, whatever the other files hold.
\<close>

theorem getAllPosts_all_or_nothing:
  assumes "readdirSync E (postsDirectory E) = Inr fileNames"
    and "fileName \<in> set fileNames" and "endsWith fileName ''.md''"
    and "readFileSync E (path_join E (postsDirectory E) fileName) = Inl e
         \<or> (\<exists>fileContents. readFileSync E (path_join E (postsDirectory E) fileName)
                = Inr fileContents \<and> matter E fileContents = Inl e)"
  shows "\<exists>e'. getAllPosts E = ([], [(''Error reading posts:'', e')])"
proof -
  from assms(4) have thrown: "make_post E fileName = Inl e"
    by (auto simp: make_post_def Let_def)
  from assms(2,3) have "fileName \<in> set (md_files fileNames)"
    by (simp add: md_files_def)
  from this thrown have "\<exists>e'. try_map (make_post E) (md_files fileNames) = Inl e'"
    by (rule try_map_throws)
  then obtain e' where "try_map (make_post E) (md_files fileNames) = Inl e'" ..
  with assms(1) show ?thesis
    by (simp add: getAllPosts_def)
qed

text \<open>C10 on the example directory when the parser rejects the second file.\<close>

theorem getAllPosts_all_or_nothing_witness:
  "readdirSync malformed_env (postsDirectory malformed_env)
     = Inr [''node.md'', ''notes.txt'', ''day-1.md'', ''day-17.md'']
   \<and> endsWith ''node.md'' ''.md''
   \<and> readFileSync malformed_env (path_join malformed_env (postsDirectory malformed_env) ''node.md'')
       = Inr ''B''
   \<and> matter malformed_env ''B'' = Inl (JsError ''YAMLException'')
   \<and> fst (getAllPosts malformed_env) = []"
proof -
  have dir: "readdirSync malformed_env (postsDirectory malformed_env)
      = Inr [''node.md'', ''notes.txt'', ''day-1.md'', ''day-17.md'']"
    by (simp add: malformed_env_def example_env_def postsDirectory_def)
  have listed: "''node.md'' \<in> set [''node.md'', ''notes.txt'', ''day-1.md'', ''day-17.md'']"
    by simp
  have md: "endsWith ''node.md'' ''.md''"
    by (simp add: endsWith_def)
  have rd: "readFileSync malformed_env
      (path_join malformed_env (postsDirectory malformed_env) ''node.md'') = Inr ''B''"
    by (simp add: malformed_env_def example_env_def postsDirectory_def)
  have bad: "matter malformed_env ''B'' = Inl (JsError ''YAMLException'')"
    by (simp add: malformed_env_def)
  from rd bad have "readFileSync malformed_env
        (path_join malformed_env (postsDirectory malformed_env) ''node.md'')
          = Inl (JsError ''YAMLException'')
      \<or> (\<exists>fileContents. readFileSync malformed_env
            (path_join malformed_env (postsDirectory malformed_env) ''node.md'') = Inr fileContents
          \<and> matter malformed_env fileContents = Inl (JsError ''YAMLException''))"
    by blast
  from getAllPosts_all_or_nothing [OF dir listed md this]
  have "fst (getAllPosts malformed_env) = []" by auto
  with dir md rd bad show ?thesis by simp
qed


lemma replace_md_stem: "replace_md (stem @ ''.md'') = stem"
  by (simp add: replace_md_def endsWith_def)

lemma make_post_Inr:
  assumes "make_post E fileName = Inr p"
  shows "\<exists>fileContents d body rendered day.
           readFileSync E (path_join E (postsDirectory E) fileName) = Inr fileContents
         \<and> matter E fileContents = Inr (d, body)
         \<and> marked E body = Inr rendered
         \<and> post_date (data_date d) = Inr day
         \<and> p = \<lparr> slug = or_string (data_slug d) (replace_md fileName),
                  title = or_string (data_title d) [],
                  date = day,
                  readTime = or_string (data_readTime d) ''5 min'',
                  category = or_any (data_category d) (JString ''personal''),
                  tags = or_array (data_tags d) [],
                  excerpt = or_string (data_excerpt d) [],
                  content = body,
                  html = rendered \<rparr>"
  using assms by (auto simp: make_post_def Let_def split: sum.splits)

lemma getAllPosts_made:
  assumes "p \<in> set (fst (getAllPosts E))"
  shows "\<exists>fileNames fileName. readdirSync E (postsDirectory E) = Inr fileNames
           \<and> fileName \<in> set fileNames \<and> endsWith fileName ''.md''
           \<and> make_post E fileName = Inr p"
proof (cases "readdirSync E (postsDirectory E)")
  case (Inl e)
  with assms show ?thesis by (simp add: getAllPosts_def)
next
  case (Inr fileNames)
  show ?thesis
  proof (cases "try_map (make_post E) (md_files fileNames)")
    case (Inl e)
    with Inr assms show ?thesis by (simp add: getAllPosts_def)
  next
    case made: (Inr posts)
    with Inr assms have "p \<in> set posts"
      by (simp add: getAllPosts_def set_array_sort)
    with made have "\<exists>fileName \<in> set (md_files fileNames). make_post E fileName = Inr p"
      by (rule try_map_results)
    with Inr show ?thesis
      by (auto simp: md_files_def)
  qed
qed

text \<open>
  C5. A post built from a front-matter that leaves out an optional key carries the
  default: \<open>category\<close> is \<open>personal\<close>, \<open>tags\<close> is the empty list, \<open>readTime\<close> is
  \<open>5 min\<close>, and \<open>slug\<close> is the file name without its \<open>.md\<close> extension.
\<close>

theorem make_post_defaults:
  assumes "readFileSync E (path_join E (postsDirectory E) fileName) = Inr fileContents"
    and "matter E fileContents = Inr (d, body)"
    and "make_post E fileName = Inr p"
  shows "(data_category d = Undefined \<longrightarrow> category p = JString ''personal'')
       \<and> (data_tags d = Undefined \<longrightarrow> tags p = [])
       \<and> (data_readTime d = Undefined \<longrightarrow> readTime p = ''5 min'')
       \<and> (data_slug d = Undefined \<longrightarrow>
            (\<forall>stem. fileName = stem @ ''.md'' \<longrightarrow> slug p = stem))"
proof -
  from make_post_Inr [OF assms(3)] assms(1,2)
  have "category p = or_any (data_category d) (JString ''personal'')"
    and "tags p = or_array (data_tags d) []"
    and "readTime p = or_string (data_readTime d) ''5 min''"
    and "slug p = or_string (data_slug d) (replace_md fileName)"
    by auto
  then show ?thesis
    by (auto simp: replace_md_stem)
qed

lemma example_make_post: "make_post example_env ''node.md'' = Inr second_post"
  by (simp add: example_env_def postsDirectory_def make_post_def second_data_def
      replace_md_def endsWith_def second_post_def)

text \<open>C5 on the second file of the example directory, which leaves out all four keys.\<close>

theorem make_post_defaults_witness:
  "readFileSync example_env (path_join example_env (postsDirectory example_env) ''node.md'')
     = Inr ''B''
   \<and> matter example_env ''B'' = Inr (second_data, ''node'')
   \<and> make_post example_env ''node.md'' = Inr second_post
   \<and> data_category second_data = Undefined \<and> category second_post = JString ''personal''
   \<and> data_tags second_data = Undefined \<and> tags second_post = []
   \<and> data_readTime second_data = Undefined \<and> readTime second_post = ''5 min''
   \<and> data_slug second_data = Undefined \<and> slug second_post = ''node''"
proof -
  have rd: "readFileSync example_env
      (path_join example_env (postsDirectory example_env) ''node.md'') = Inr ''B''"
    by (simp add: example_env_def postsDirectory_def)
  have parsed: "matter example_env ''B'' = Inr (second_data, ''node'')"
    by (simp add: example_env_def)
  have omitted: "data_category second_data = Undefined" "data_tags second_data = Undefined"
    "data_readTime second_data = Undefined" "data_slug second_data = Undefined"
    by (simp_all add: second_data_def)
  have name: "''node.md'' = ''node'' @ ''.md''" by simp
  from make_post_defaults [OF rd parsed example_make_post] omitted name
  have "category second_post = JString ''personal''" "tags second_post = []"
    "readTime second_post = ''5 min''" "slug second_post = ''node''"
    by blast+
  with rd parsed omitted example_make_post show ?thesis by simp
qed

lemma or_any_label:
  "or_any v (JString ''personal'') \<in> JString ` set category_labels \<longleftrightarrow> category_declared v"
  by (cases v) (auto simp: category_labels_def)

text \<open>
  C9, as amended. Every post that \<open>getAllPosts\<close> returns is the record built from one
  markdown file of the directory listing, and its category is the value of that file's
  front-matter category when the value is truthy (a non-empty string, a number other than
  zero and \<open>NaN\<close>, \<open>true\<close>, or an object), copied unchanged, and \<open>personal\<close> when the
  key is missing, null or falsy. So the category is one of the three labels exactly when
  the front-matter category is missing, null, falsy or one of the three labels.
\<close>

theorem getAllPosts_category:
  assumes "p \<in> set (fst (getAllPosts E))"
  shows "\<exists>fileNames fileName fileContents d body.
           readdirSync E (postsDirectory E) = Inr fileNames
         \<and> fileName \<in> set fileNames \<and> endsWith fileName ''.md''
         \<and> make_post E fileName = Inr p
         \<and> readFileSync E (path_join E (postsDirectory E) fileName) = Inr fileContents
         \<and> matter E fileContents = Inr (d, body)
         \<and> category p = or_any (data_category d) (JString ''personal'')
         \<and> (category p \<in> JString ` set category_labels
              \<longleftrightarrow> category_declared (data_category d))"
proof -
  from getAllPosts_made [OF assms] obtain fileNames fileName
    where listing: "readdirSync E (postsDirectory E) = Inr fileNames"
      and listed: "fileName \<in> set fileNames"
      and md: "endsWith fileName ''.md''" and made: "make_post E fileName = Inr p"
    by blast
  from make_post_Inr [OF made] obtain fileContents d body
    where rd: "readFileSync E (path_join E (postsDirectory E) fileName) = Inr fileContents"
      and parsed: "matter E fileContents = Inr (d, body)"
      and cat: "category p = or_any (data_category d) (JString ''personal'')"
    by auto
  have "category p \<in> JString ` set category_labels \<longleftrightarrow> category_declared (data_category d)"
    unfolding cat by (rule or_any_label)
  with listing listed md made rd parsed cat show ?thesis by blast
qed

lemma cooking_posts:
  "fst (getAllPosts cooking_env) = [second_post \<lparr> category := JString ''cooking'' \<rparr>]"
  by (simp add: getAllPosts_def cooking_env_def example_env_def postsDirectory_def md_files_def
      endsWith_def make_post_def second_data_def replace_md_def array_sort_def
      second_post_def)

lemma numeric_posts:
  "fst (getAllPosts numeric_env)
     = [second_post \<lparr> category := JNumber (FiniteNumber 7) \<rparr>]"
  by (simp add: getAllPosts_def numeric_env_def example_env_def postsDirectory_def md_files_def
      endsWith_def make_post_def second_data_def replace_md_def array_sort_def
      second_post_def)

text \<open>
  C9 as stated fails: a front-matter with \<open>category: cooking\<close> yields a post whose
  category is \<open>cooking\<close>, and one with \<open>category: 7\<close> yields a post whose category is
  the number 7; the cast in the record construction checks nothing.
\<close>

theorem getAllPosts_category_counterexample:
  "map category (fst (getAllPosts cooking_env)) = [JString ''cooking'']
   \<and> JString ''cooking'' \<notin> JString ` set category_labels
   \<and> map category (fst (getAllPosts numeric_env)) = [JNumber (FiniteNumber 7)]
   \<and> JNumber (FiniteNumber 7) \<notin> JString ` set category_labels"
  by (auto simp: cooking_posts numeric_posts category_labels_def)

text \<open>
  C9, as amended, on the example directory: the second post comes from \<open>node.md\<close>,
  whose front-matter has no category, and the first from \<open>day-17.md\<close>, whose category
  is \<open>rust\<close>.
\<close>

theorem getAllPosts_category_witness:
  "second_post \<in> set (fst (getAllPosts example_env))
   \<and> (\<exists>fileNames fileName fileContents d body.
           readdirSync example_env (postsDirectory example_env) = Inr fileNames
         \<and> fileName \<in> set fileNames \<and> endsWith fileName ''.md''
         \<and> make_post example_env fileName = Inr second_post
         \<and> readFileSync example_env
              (path_join example_env (postsDirectory example_env) fileName) = Inr fileContents
         \<and> matter example_env fileContents = Inr (d, body)
         \<and> category second_post = or_any (data_category d) (JString ''personal'')
         \<and> (category second_post \<in> JString ` set category_labels
              \<longleftrightarrow> category_declared (data_category d)))
   \<and> make_post example_env ''node.md'' = Inr second_post
   \<and> category_declared (data_category second_data)
   \<and> category second_post = JString ''personal''
   \<and> category first_post = JString ''rust''"
proof -
  have mem: "second_post \<in> set (fst (getAllPosts example_env))"
    by (simp add: example_posts)
  have declared: "category_declared (data_category second_data)"
    by (simp add: second_data_def)
  have label: "category second_post = JString ''personal''"
    by (simp add: second_post_def)
  have rust: "category first_post = JString ''rust''"
    by (simp add: first_post_def)
  from mem getAllPosts_category [OF mem] example_make_post declared label rust
  show ?thesis by (intro conjI)
qed

lemma getPostBySlug_find:
  "fst (getPostBySlug E s) = find (\<lambda>post. slug post = s) (fst (getAllPosts E))"
  by (simp add: getPostBySlug_def split_beta)

lemma find_first_match:
  "xs = before @ x # after \<Longrightarrow> P x \<Longrightarrow> \<forall>y \<in> set before. \<not> P y \<Longrightarrow> find P xs = Some x"
  by (induction before arbitrary: xs) auto

text \<open>
  C7. \<open>getPostBySlug\<close> searches the result of \<open>getAllPosts\<close> from the front for an
  exact slug match: it is absent exactly when no post has the slug, and otherwise it is the
  first post with the slug; it logs nothing of its own. In the page, a post route whose
  slug no post has gives no current post and no post section.
\<close>

theorem getPostBySlug_first_match_or_absent:
  "(fst (getPostBySlug E s) = None \<longleftrightarrow> (\<forall>p \<in> set (fst (getAllPosts E)). slug p \<noteq> s))
   \<and> (\<forall>before p after.
         fst (getAllPosts E) = before @ p # after \<and> slug p = s
           \<and> (\<forall>q \<in> set before. slug q \<noteq> s)
         \<longrightarrow> fst (getPostBySlug E s) = Some p)
   \<and> snd (getPostBySlug E s) = snd (getAllPosts E)
   \<and> ((\<forall>p \<in> set posts. slug p \<noteq> s) \<longrightarrow>
         currentPost (RoutePost s) posts = None
         \<and> render_post_section (RoutePost s) posts = None)"
proof (intro conjI allI impI)
  show "(fst (getPostBySlug E s) = None) = (\<forall>p \<in> set (fst (getAllPosts E)). slug p \<noteq> s)"
    by (auto simp: getPostBySlug_find find_None_iff)
next
  fix before p after
  assume "fst (getAllPosts E) = before @ p # after \<and> slug p = s
           \<and> (\<forall>q \<in> set before. slug q \<noteq> s)"
  then show "fst (getPostBySlug E s) = Some p"
    unfolding getPostBySlug_find by (intro find_first_match [where before = before]) auto
next
  show "snd (getPostBySlug E s) = snd (getAllPosts E)"
    by (simp add: getPostBySlug_def split_beta)
next
  assume absent: "\<forall>p \<in> set posts. slug p \<noteq> s"
  then show "currentPost (RoutePost s) posts = None"
    by (simp add: find_None_iff)
  then show "render_post_section (RoutePost s) posts = None"
    by (simp add: render_post_section_def)
qed

text \<open>
  C7 on the example directory: a slug that no post has against three posts, and the slug
  of the second post.
\<close>

theorem getPostBySlug_first_match_or_absent_witness:
  "fst (getAllPosts example_env) \<noteq> []
   \<and> fst (getPostBySlug example_env ''nonexistent-slug'') = None
   \<and> currentPost (RoutePost ''nonexistent-slug'') (fst (getAllPosts example_env)) = None
   \<and> render_post_section (RoutePost ''nonexistent-slug'') (fst (getAllPosts example_env)) = None
   \<and> fst (getPostBySlug example_env ''node'') = Some second_post"
proof -
  have posts: "fst (getAllPosts example_env) = [first_post] @ second_post # [third_post]"
    by (simp add: example_posts)
  have absent: "\<forall>p \<in> set (fst (getAllPosts example_env)). slug p \<noteq> ''nonexistent-slug''"
    by (simp add: example_posts first_post_def second_post_def third_post_def)
  have hit: "slug second_post = ''node''" "\<forall>q \<in> set [first_post]. slug q \<noteq> ''node''"
    by (simp_all add: first_post_def second_post_def)
  note c7 = getPostBySlug_first_match_or_absent
    [of example_env "''nonexistent-slug''" "fst (getAllPosts example_env)"]
  note c7' = getPostBySlug_first_match_or_absent [of example_env "''node''" "[]"]
  from c7 absent have "fst (getPostBySlug example_env ''nonexistent-slug'') = None"
    and "currentPost (RoutePost ''nonexistent-slug'') (fst (getAllPosts example_env)) = None"
    and "render_post_section (RoutePost ''nonexistent-slug'') (fst (getAllPosts example_env))
           = None"
    by blast+
  moreover from c7' posts hit have "fst (getPostBySlug example_env ''node'') = Some second_post"
    by blast
  moreover have "fst (getAllPosts example_env) \<noteq> []"
    by (simp add: example_posts)
  ultimately show ?thesis by simp
qed

section \<open>The claims about the derived views\<close>

lemma descending_filter: "date_descending ps \<Longrightarrow> date_descending (filter P ps)"
  unfolding date_descending_def by (rule sorted_wrt_filter)

text \<open>
  C8. For every post list and every facet other than \<open>all\<close>, the filtered list holds
  exactly the posts whose category equals the facet, each as often as the post list does;
  with the facet \<open>all\<close> it holds every post; in both cases it is in descending date
  order.
\<close>

theorem filteredPosts_facet:
  "(facet \<noteq> ''all'' \<longrightarrow>
      mset (filteredPosts posts facet) = filter_mset (\<lambda>p. category p = JString facet) (mset posts))
   \<and> (facet = ''all'' \<longrightarrow> mset (filteredPosts posts facet) = mset posts)
   \<and> date_descending (filteredPosts posts facet)"
  by (simp add: filteredPosts_def Let_def mset_array_sort descending_array_sort
      descending_filter)

lemma example_sort_reversed:
  "array_sort date_cmp [third_post, second_post, first_post]
     = [first_post, second_post, third_post]"
  by (simp add: array_sort_def date_cmp_def first_post_def second_post_def third_post_def)

lemma example_sort_sorted:
  "array_sort date_cmp [first_post, second_post, third_post]
     = [first_post, second_post, third_post]"
  by (simp add: array_sort_def date_cmp_def first_post_def second_post_def third_post_def)

text \<open>
  C8 on the three example posts given in ascending order: the facet \<open>rust\<close> keeps the
  first and the third, newest first.
\<close>

theorem filteredPosts_facet_witness:
  "filteredPosts [third_post, second_post, first_post] ''rust'' = [first_post, third_post]
   \<and> mset [first_post, third_post]
       = filter_mset (\<lambda>p. category p = JString ''rust'')
           (mset [third_post, second_post, first_post])
   \<and> date_descending [first_post, third_post]
   \<and> filteredPosts [third_post, second_post, first_post] ''all''
       = [first_post, second_post, third_post]"
proof -
  have rust: "filteredPosts [third_post, second_post, first_post] ''rust''
      = [first_post, third_post]"
    by (simp add: filteredPosts_def example_sort_reversed)
      (simp add: first_post_def second_post_def third_post_def)
  have all: "filteredPosts [third_post, second_post, first_post] ''all''
      = [first_post, second_post, third_post]"
    by (simp add: filteredPosts_def example_sort_reversed)
  have facet: "''rust'' \<noteq> ''all''" by simp
  from filteredPosts_facet [of "''rust''" "[third_post, second_post, first_post]"] facet
  have "mset (filteredPosts [third_post, second_post, first_post] ''rust'')
      = filter_mset (\<lambda>p. category p = JString ''rust'')
           (mset [third_post, second_post, first_post])"
    and "date_descending (filteredPosts [third_post, second_post, first_post] ''rust'')"
    by blast+
  with rust all show ?thesis by simp
qed

lemma findIndex_from_first:
  "i < length xs \<Longrightarrow> P (xs ! i) \<Longrightarrow> \<forall>j < i. \<not> P (xs ! j) \<Longrightarrow>
   findIndex_from k P xs = k + int i"
proof (induction xs arbitrary: i k)
  case Nil
  then show ?case by simp
next
  case (Cons x xs)
  show ?case
  proof (cases i)
    case 0
    with Cons.prems show ?thesis by simp
  next
    case (Suc n)
    with Cons.prems have "\<not> P x" by auto
    moreover from Suc Cons.prems have "findIndex_from (k + 1) P xs = (k + 1) + int n"
      by (intro Cons.IH) auto
    ultimately show ?thesis using Suc by simp
  qed
qed

lemma findIndex_distinct:
  assumes "distinct (map f xs)" and "i < length xs"
  shows "findIndex (\<lambda>p. f p = f (xs ! i)) xs = int i"
proof -
  have "\<forall>j < i. f (xs ! j) \<noteq> f (xs ! i)"
  proof (intro allI impI)
    fix j assume "j < i"
    with assms have "j < length (map f xs)" "i < length (map f xs)" "j \<noteq> i"
      by simp_all
    with assms(1) have "map f xs ! j \<noteq> map f xs ! i"
      by (simp only: nth_eq_iff_index_eq not_False_eq_True)
    with \<open>j < i\<close> assms(2) show "f (xs ! j) \<noteq> f (xs ! i)" by simp
  qed
  with assms(2) show ?thesis
    unfolding findIndex_def by (simp add: findIndex_from_first)
qed

lemma find_distinct:
  assumes "distinct (map f xs)" and "x \<in> set xs"
  shows "find (\<lambda>p. f p = f x) xs = Some x"
  using assms by (induction xs) (auto simp: image_iff)

lemma distinct_slugs_sorted:
  "distinct (map slug posts) \<Longrightarrow> distinct (map slug (array_sort cmp posts))"
proof -
  assume "distinct (map slug posts)"
  moreover have "mset (map slug (array_sort cmp posts)) = mset (map slug posts)"
    by (simp add: mset_array_sort)
  ultimately show ?thesis
    by (metis mset_eq_imp_distinct_iff)
qed

lemma postNavigation_at:
  assumes "distinct (map slug posts)" and "i < length posts"
  shows "postNavigation (RoutePost (slug (array_sort date_cmp posts ! i))) posts
     = \<lparr> prev = (if Suc i < length posts
                  then Some (array_sort date_cmp posts ! Suc i) else None),
         next = (if 0 < i then Some (array_sort date_cmp posts ! (i - 1)) else None) \<rparr>"
proof -
  let ?srt = "array_sort date_cmp posts"
  let ?cur = "?srt ! i"
  from assms(2) have "?cur \<in> set ?srt"
    by (simp add: length_array_sort)
  then have "?cur \<in> set posts"
    by (simp add: set_array_sort)
  with assms(1) have cur: "currentPost (RoutePost (slug ?cur)) posts = Some ?cur"
    by (simp add: find_distinct)
  from assms(1) have "distinct (map slug ?srt)"
    by (rule distinct_slugs_sorted)
  moreover from assms(2) have "i < length ?srt"
    by (simp add: length_array_sort)
  ultimately have idx: "findIndex (\<lambda>p. slug p = slug ?cur) ?srt = int i"
    by (rule findIndex_distinct)
  have older: "(if int i < int (length ?srt) - 1 then array_get ?srt (int i + 1) else None)
      = (if Suc i < length posts then Some (?srt ! Suc i) else None)"
    by (auto simp: array_get_def length_array_sort nat_add_distrib)
  have newer: "(if int i > 0 then array_get ?srt (int i - 1) else None)
      = (if 0 < i then Some (?srt ! (i - 1)) else None)"
    using assms(2) by (auto simp: array_get_def length_array_sort nat_diff_distrib')
  show ?thesis
    unfolding postNavigation_def cur option.case Let_def idx older newer ..
qed

text \<open>
  C4, as amended. When the slugs are distinct, for the post at index \<open>i\<close> of the
  date-descending list the pointer \<open>prev\<close> (the button labelled PREVIOUS) is the post
  at index \<open>i + 1\<close>, which is not newer, and the pointer \<open>next\<close> (the button labelled
  NEXT) is the post at index \<open>i - 1\<close>, which is not older; \<open>next\<close> is absent at the
  newest post and \<open>prev\<close> is absent at the oldest post.
\<close>

theorem postNavigation_neighbours:
  assumes "distinct (map slug posts)"
    and "ordered = array_sort date_cmp posts"
    and "i < length ordered"
    and "nav = postNavigation (RoutePost (slug (ordered ! i))) posts"
  shows "prev nav = (if Suc i < length ordered then Some (ordered ! Suc i) else None)
       \<and> next nav = (if 0 < i then Some (ordered ! (i - 1)) else None)
       \<and> (Suc i < length ordered \<longrightarrow> date (ordered ! Suc i) \<le> date (ordered ! i))
       \<and> (0 < i \<longrightarrow> date (ordered ! i) \<le> date (ordered ! (i - 1)))"
proof -
  from assms(2,3) have len: "length ordered = length posts" and i: "i < length posts"
    by (simp_all add: length_array_sort)
  from postNavigation_at [OF assms(1) i]
  have nav: "nav = \<lparr> prev = (if Suc i < length ordered then Some (ordered ! Suc i) else None),
                      next = (if 0 < i then Some (ordered ! (i - 1)) else None) \<rparr>"
    unfolding assms(4) len unfolding assms(2) .
  have desc: "date_descending ordered"
    unfolding assms(2) by (rule descending_array_sort)
  then have older: "Suc i < length ordered \<longrightarrow> date (ordered ! Suc i) \<le> date (ordered ! i)"
    by (simp add: descending_adjacent)
  have newer: "0 < i \<longrightarrow> date (ordered ! i) \<le> date (ordered ! (i - 1))"
  proof
    assume "0 < i"
    with assms(3) descending_adjacent [OF desc, of "i - 1"]
    show "date (ordered ! i) \<le> date (ordered ! (i - 1))" by simp
  qed
  from older newer show ?thesis
    unfolding nav by simp
qed

text \<open>C4, as amended, at the middle one of the three example posts.\<close>

theorem postNavigation_neighbours_witness:
  "distinct (map slug [third_post, first_post, second_post])
   \<and> array_sort date_cmp [third_post, first_post, second_post]
       = [first_post, second_post, third_post]
   \<and> prev (postNavigation (RoutePost (slug second_post)) [third_post, first_post, second_post])
       = Some third_post
   \<and> next (postNavigation (RoutePost (slug second_post)) [third_post, first_post, second_post])
       = Some first_post
   \<and> date third_post \<le> date second_post \<and> date second_post \<le> date first_post"
proof -
  have d: "distinct (map slug [third_post, first_post, second_post])"
    by (simp add: first_post_def second_post_def third_post_def)
  have srt: "[first_post, second_post, third_post]
      = array_sort date_cmp [third_post, first_post, second_post]"
    by (simp add: array_sort_def date_cmp_def first_post_def second_post_def third_post_def)
  have i: "1 < length [first_post, second_post, third_post]" by simp
  have nav: "postNavigation (RoutePost (slug second_post)) [third_post, first_post, second_post]
      = postNavigation (RoutePost (slug ([first_post, second_post, third_post] ! 1)))
          [third_post, first_post, second_post]"
    by simp
  from postNavigation_neighbours [OF d srt i nav]
  have "prev (postNavigation (RoutePost (slug second_post))
            [third_post, first_post, second_post]) = Some third_post"
    and "next (postNavigation (RoutePost (slug second_post))
            [third_post, first_post, second_post]) = Some first_post"
    and "date third_post \<le> date second_post" and "date second_post \<le> date first_post"
    by simp_all
  with d srt [symmetric] show ?thesis
    by (intro conjI)
qed

text \<open>
  C4 as stated fails: at the middle post of the three example posts, which are in
  descending date order, \<open>next\<close> is the newer post (index 0) and \<open>prev\<close> is the older
  post (index 2), the reverse of what C4 states.
\<close>

theorem postNavigation_neighbours_counterexample:
  "array_sort date_cmp [first_post, second_post, third_post]
     = [first_post, second_post, third_post]
   \<and> currentPost (RoutePost ''node'') [first_post, second_post, third_post] = Some second_post
   \<and> next (postNavigation (RoutePost ''node'') [first_post, second_post, third_post])
       = Some first_post
   \<and> prev (postNavigation (RoutePost ''node'') [first_post, second_post, third_post])
       = Some third_post
   \<and> date third_post < date second_post \<and> date second_post < date first_post"
  by (simp add: postNavigation_def example_sort_sorted findIndex_def array_get_def)
    (simp add: first_post_def second_post_def third_post_def)

section \<open>The claims about the router\<close>

lemma split_not_Nil: "split c s \<noteq> []"
  by (induction s) (auto split: list.splits)


lemma split_first_segment: "c \<notin> set a \<Longrightarrow> split c (a @ c # b) = a # split c b"
  by (induction a) auto

lemma array_get_0: "xs \<noteq> [] \<Longrightarrow> array_get xs 0 = Some (hd xs)"
  by (cases xs) (simp_all add: array_get_def)



lemma of_char_hash: "(of_char CHR ''#'' :: nat) = 35"
  by simp












lemma first_segment_of_name:
  "frag \<in> set route_names \<Longrightarrow> hd (split CHR ''/'' frag) = frag"
  by (auto simp: route_names_def)

lemma first_segment_of_log:
  assumes "take 4 frag = ''log/''"
  shows "hd (split CHR ''/'' frag) = ''log''"
proof -
  have "frag = take 4 frag @ drop 4 frag" by simp
  with assms have "frag = ''log'' @ CHR ''/'' # drop 4 frag" by simp
  moreover have "split CHR ''/'' (''log'' @ CHR ''/'' # drop 4 frag)
      = ''log'' # split CHR ''/'' (drop 4 frag)"
    by (rule split_first_segment) simp
  ultimately show ?thesis by simp
qed

lemma unknown_first_segment_not_in_grammar:
  assumes "hd (split CHR ''/'' frag) \<notin> set route_names"
  shows "\<not> spec_fragment_grammar frag"
proof
  assume "spec_fragment_grammar frag"
  then consider "frag \<in> set route_names" | "take 4 frag = ''log/''"
    by (auto simp: spec_fragment_grammar_def)
  then show False
  proof cases
    case 1
    with assms show False by (simp add: first_segment_of_name)
  next
    case 2
    then have "hd (split CHR ''/'' frag) = ''log''" by (rule first_segment_of_log)
    with assms show False by (simp add: route_names_def)
  qed
qed

text \<open>
  C3, as amended. Take a fragment that is empty, or whose first segment (the part before
  the first \<open>/\<close>) is none of the five state names; such a fragment is outside the
  grammar. Read on mount, it leaves the route at its initial value \<open>home\<close>. Delivered by
  a fragment change, the empty fragment sets the route to \<open>home\<close> in any current state,
  and a non-empty one leaves the current route as it is.
\<close>

theorem unrecognised_fragment:
  assumes "hash = drop 1 (location_hash w)"
    and "hash = [] \<or> hd (split CHR ''/'' hash) \<notin> set route_names"
  shows "\<not> spec_fragment_grammar hash
       \<and> hash_on_mount w initial_route = RouteName ''home''
       \<and> (hash = [] \<longrightarrow> handleHashChange w r = RouteName ''home'')
       \<and> (hash \<noteq> [] \<longrightarrow> handleHashChange w r = r)"
proof -
  have empty_first: "hd (split CHR ''/'' []) \<notin> set route_names"
    by (simp add: route_names_def)
  with assms(2) have unknown: "hd (split CHR ''/'' hash) \<notin> set route_names"
    by auto
  then have grammar: "\<not> spec_fragment_grammar hash"
    by (rule unknown_first_segment_not_in_grammar)
  have first: "array_get (split CHR ''/'' hash) 0 = Some (hd (split CHR ''/'' hash))"
    by (simp add: array_get_0 split_not_Nil)
  from unknown have not_log: "hd (split CHR ''/'' hash) \<noteq> ''log''"
    by (auto simp: route_names_def)
  have mount: "hash_on_mount w initial_route = RouteName ''home''"
    unfolding hash_on_mount_def assms(1) [symmetric] Let_def first
    using unknown not_log by (simp add: initial_route_def)
  have gone: "hash = [] \<longrightarrow> handleHashChange w r = RouteName ''home''"
    unfolding handleHashChange_def assms(1) [symmetric] Let_def by simp
  have kept: "hash \<noteq> [] \<longrightarrow> handleHashChange w r = r"
    unfolding handleHashChange_def assms(1) [symmetric] Let_def first
    using unknown not_log by simp
  from grammar mount gone kept show ?thesis by blast
qed

text \<open>C3, as amended, for the fragment \<open>bogus\<close> and for the empty fragment.\<close>

theorem unrecognised_fragment_witness:
  "hd (split CHR ''/'' ''bogus'') \<notin> set route_names
   \<and> hash_on_mount \<lparr> location_hash = ''#bogus'', history = [] \<rparr> initial_route
       = RouteName ''home''
   \<and> handleHashChange \<lparr> location_hash = ''#bogus'', history = [] \<rparr> (RouteName ''skills'')
       = RouteName ''skills''
   \<and> handleHashChange fresh_window (RouteName ''skills'') = RouteName ''home''"
proof -
  have h1: "''bogus'' = drop 1 (location_hash \<lparr> location_hash = ''#bogus'', history = [] \<rparr>)"
    by simp
  have u1: "hd (split CHR ''/'' ''bogus'') \<notin> set route_names"
    by (simp add: route_names_def)
  then have p1: "''bogus'' = [] \<or> hd (split CHR ''/'' ''bogus'') \<notin> set route_names" ..
  have h2: "[] = drop 1 (location_hash fresh_window)"
    by (simp add: fresh_window_def)
  have p2: "([]::string) = [] \<or> hd (split CHR ''/'' []) \<notin> set route_names"
    by simp
  from unrecognised_fragment [OF h1 p1, of "RouteName ''skills''"]
  have "hash_on_mount \<lparr> location_hash = ''#bogus'', history = [] \<rparr> initial_route
          = RouteName ''home''"
    and "handleHashChange \<lparr> location_hash = ''#bogus'', history = [] \<rparr> (RouteName ''skills'')
          = RouteName ''skills''"
    by simp_all
  moreover from unrecognised_fragment [OF h2 p2, of "RouteName ''skills''"]
  have "handleHashChange fresh_window (RouteName ''skills'') = RouteName ''home''"
    by simp
  ultimately show ?thesis using u1 by simp
qed

text \<open>
  C3 as stated fails twice: the fragment \<open>bogus\<close>, delivered by a fragment change while
  the route is \<open>roadmap\<close>, leaves the route at \<open>roadmap\<close>; and the fragment
  \<open>roadmap/x\<close>, which the grammar does not have, is read on mount as \<open>roadmap\<close>.
\<close>

theorem unrecognised_fragment_counterexample:
  "\<not> spec_fragment_grammar ''bogus''
   \<and> handleHashChange \<lparr> location_hash = ''#bogus'', history = [] \<rparr> (RouteName ''roadmap'')
       = RouteName ''roadmap''
   \<and> \<not> spec_fragment_grammar ''roadmap/x''
   \<and> hash_on_mount \<lparr> location_hash = ''#roadmap/x'', history = [] \<rparr> initial_route
       = RouteName ''roadmap''
   \<and> RouteName ''roadmap'' \<noteq> RouteName ''home''"
  by (simp add: spec_fragment_grammar_def route_names_def handleHashChange_def
      hash_on_mount_def array_get_def)

end
